theory Spec2Isabelle
  imports Complex_Main
begin

section \<open>Text primitives of the host language\<close>

text \<open>
  The script \<^verbatim>\<open>scripts/consolidate-expense-data.py\<close> works on Python strings. A string is
  modelled as a list of characters whose code points lie below 256; the character classes
  below are the ones Python uses on that range.
\<close>

datatype exn = IndexError | ValueError

definition bind_exn :: "exn + 'a \<Rightarrow> ('a \<Rightarrow> exn + 'b) \<Rightarrow> exn + 'b" where
  "bind_exn m f = (case m of Inl e \<Rightarrow> Inl e | Inr x \<Rightarrow> f x)"

definition code_of :: "char \<Rightarrow> nat" where
  "code_of c = of_char c"

text \<open>\<^verbatim>\<open>str.isspace\<close> on one character: what \<^verbatim>\<open>strip()\<close> and \<^verbatim>\<open>split()\<close> remove.\<close>

definition is_space :: "char \<Rightarrow> bool" where
  "is_space c = (let n = code_of c in
     (9 \<le> n \<and> n \<le> 13) \<or> (28 \<le> n \<and> n \<le> 32) \<or> n = 133 \<or> n = 160)"

text \<open>The class \<^verbatim>\<open>\w\<close> of the \<^verbatim>\<open>re\<close> module on text patterns: alphanumerics and underscore.\<close>

definition is_word :: "char \<Rightarrow> bool" where
  "is_word c = (let n = code_of c in
     (48 \<le> n \<and> n \<le> 57) \<or> (65 \<le> n \<and> n \<le> 90) \<or> n = 95 \<or> (97 \<le> n \<and> n \<le> 122) \<or>
     n = 170 \<or> n = 178 \<or> n = 179 \<or> n = 181 \<or> n = 185 \<or> n = 186 \<or>
     (188 \<le> n \<and> n \<le> 190) \<or> (192 \<le> n \<and> n \<le> 214) \<or> (216 \<le> n \<and> n \<le> 246) \<or>
     (248 \<le> n \<and> n \<le> 255))"

definition lower :: "char \<Rightarrow> char" where
  "lower c = (let n = code_of c in if 65 \<le> n \<and> n \<le> 90 then char_of (n + 32) else c)"

text \<open>\<^verbatim>\<open>s.strip()\<close>\<close>

definition strip :: "string \<Rightarrow> string" where
  "strip s = rev (dropWhile is_space (rev (dropWhile is_space s)))"

text \<open>\<^verbatim>\<open>s.split()\<close>: the maximal runs of non-whitespace characters, in order.\<close>

fun split_acc :: "string \<Rightarrow> string \<Rightarrow> string list" where
  "split_acc cur [] = (if cur = [] then [] else [cur])"
| "split_acc cur (c # cs) =
     (if is_space c then (if cur = [] then split_acc [] cs else cur # split_acc [] cs)
      else split_acc (cur @ [c]) cs)"

definition split :: "string \<Rightarrow> string list" where
  "split s = split_acc [] s"

text \<open>\<^verbatim>\<open>s.split(sep)\<close> for a one-character separator: always at least one field.\<close>

fun split_on_acc :: "char \<Rightarrow> string \<Rightarrow> string \<Rightarrow> string list" where
  "split_on_acc sep cur [] = [cur]"
| "split_on_acc sep cur (c # cs) =
     (if c = sep then cur # split_on_acc sep [] cs else split_on_acc sep (cur @ [c]) cs)"

definition split_on :: "char \<Rightarrow> string \<Rightarrow> string list" where
  "split_on sep s = split_on_acc sep [] s"

text \<open>\<^verbatim>\<open>s.startswith(p)\<close> and \<^verbatim>\<open>p in s\<close>\<close>

fun startswith :: "string \<Rightarrow> string \<Rightarrow> bool" where
  "startswith s [] = True"
| "startswith [] (p # ps) = False"
| "startswith (c # cs) (p # ps) = (if c = p then startswith cs ps else False)"

fun contains :: "string \<Rightarrow> string \<Rightarrow> bool" where
  "contains [] p = (p = [])"
| "contains (c # cs) p = (if startswith (c # cs) p then True else contains cs p)"

text \<open>\<^verbatim>\<open>s.replace(c, '')\<close> for a one-character \<^verbatim>\<open>c\<close>\<close>

definition remove_char :: "char \<Rightarrow> string \<Rightarrow> string" where
  "remove_char c s = filter (\<lambda>x. x \<noteq> c) s"

text \<open>\<^verbatim>\<open>sep.join(xs)\<close>\<close>

fun join :: "string \<Rightarrow> string list \<Rightarrow> string" where
  "join sep [] = []"
| "join sep [x] = x"
| "join sep (x # y # ys) = x @ sep @ join sep (y # ys)"

text \<open>\<^verbatim>\<open>xs[i]\<close> for a non-negative literal index: raises \<^verbatim>\<open>IndexError\<close> out of range.\<close>

definition index :: "'a list \<Rightarrow> nat \<Rightarrow> exn + 'a" where
  "index xs i = (if i < length xs then Inr (xs ! i) else Inl IndexError)"

section \<open>Regular expressions\<close>

text \<open>
  The patterns of \<^verbatim>\<open>VENDOR_PATTERNS\<close> use literal characters, \<^verbatim>\<open>\b\<close>, \<^verbatim>\<open>.*\<close>, one
  optional character (\<^verbatim>\<open>'?\<close>) and top-level alternation. A pattern is the list of its
  alternatives, an alternative the list of its items. \<^verbatim>\<open>re.search(p, s, re.IGNORECASE)\<close> is
  truthy exactly when some alternative matches at some position of \<^verbatim>\<open>s\<close>.
\<close>

datatype item = Lit char | WordB | AnyStar | Opt char

type_synonym pattern = "item list list"

definition lit :: "string \<Rightarrow> item list" where
  "lit s = map Lit s"

definition wb :: "item list" where
  "wb = [WordB]"

definition any_star :: "item list" where
  "any_star = [AnyStar]"

text \<open>Literal comparison under \<^verbatim>\<open>re.IGNORECASE\<close>.\<close>

definition lit_eq :: "char \<Rightarrow> char \<Rightarrow> bool" where
  "lit_eq c x = (lower c = lower x)"

text \<open>
  \<^verbatim>\<open>\b\<close> holds between the previous character (if any) and the next one (if any) when
  exactly one of them is a word character.
\<close>

definition word_before :: "char option \<Rightarrow> bool" where
  "word_before prev = (case prev of None \<Rightarrow> False | Some c \<Rightarrow> is_word c)"

definition word_next :: "string \<Rightarrow> bool" where
  "word_next s = (case s of [] \<Rightarrow> False | c # _ \<Rightarrow> is_word c)"

definition at_boundary :: "char option \<Rightarrow> string \<Rightarrow> bool" where
  "at_boundary prev s = (word_before prev \<noteq> word_next s)"

text \<open>Does the alternative match a prefix of \<open>s\<close>, the character before \<open>s\<close> being \<open>prev\<close>?\<close>

fun match_here :: "item list \<Rightarrow> char option \<Rightarrow> string \<Rightarrow> bool" where
  "match_here [] prev s = True"
| "match_here (Lit c # r) prev [] = False"
| "match_here (Lit c # r) prev (x # xs) =
     (if lit_eq c x then match_here r (Some x) xs else False)"
| "match_here (WordB # r) prev s =
     (if at_boundary prev s then match_here r prev s else False)"
| "match_here (Opt c # r) prev [] = match_here r prev []"
| "match_here (Opt c # r) prev (x # xs) =
     (if lit_eq c x \<and> match_here r (Some x) xs then True else match_here r prev (x # xs))"
| "match_here (AnyStar # r) prev [] = match_here r prev []"
| "match_here (AnyStar # r) prev (x # xs) =
     (if x \<noteq> CHR 0x0A \<and> match_here (AnyStar # r) (Some x) xs then True
      else match_here r prev (x # xs))"

fun match_any :: "pattern \<Rightarrow> char option \<Rightarrow> string \<Rightarrow> bool" where
  "match_any [] prev s = False"
| "match_any (a # as) prev s = (if match_here a prev s then True else match_any as prev s)"

fun search_from :: "pattern \<Rightarrow> char option \<Rightarrow> string \<Rightarrow> bool" where
  "search_from p prev [] = match_any p prev []"
| "search_from p prev (x # xs) =
     (if match_any p prev (x # xs) then True else search_from p (Some x) xs)"

definition re_search :: "pattern \<Rightarrow> string \<Rightarrow> bool" where
  "re_search p s = search_from p None s"

section \<open>Vendor classifier\<close>

definition VENDOR_PATTERNS :: "(pattern \<times> string) list" where
  "VENDOR_PATTERNS = [
    ([wb @ lit ''Delta'' @ wb, wb @ lit ''DELTA AIR'' @ wb], ''Delta Airlines''),
    ([wb @ lit ''American'' @ wb, wb @ lit ''AMERICAN AIR''], ''American Airlines''),
    ([wb @ lit ''Southwest'' @ wb], ''Southwest Airlines''),
    ([wb @ lit ''United'' @ wb], ''United Airlines''),

    ([wb @ lit ''Hampton Inn'' @ wb, wb @ lit ''HAMPTON INN'' @ wb], ''Hampton Inn''),
    ([wb @ lit ''Hilton'' @ wb, wb @ lit ''HILTON'' @ wb], ''Hilton''),
    ([wb @ lit ''Marriott'' @ wb, wb @ lit ''MARRIOTT'' @ wb], ''Marriott''),
    ([wb @ lit ''DoubleTree'' @ wb, wb @ lit ''DOUBLETREE'' @ wb], ''DoubleTree''),
    ([wb @ lit ''Tribute Portfolio'' @ wb], ''Tribute Portfolio Hotel''),

    ([wb @ lit ''Hertz'' @ wb, wb @ lit ''HERTZ'' @ wb], ''Hertz''),
    ([wb @ lit ''Enterprise'' @ wb], ''Enterprise''),

    ([wb @ lit ''RDU'' @ wb @ any_star @ wb @ lit ''Parking'' @ wb, wb @ lit ''RDUAA'' @ wb],
       ''RDU Airport Parking''),
    ([wb @ lit ''Parking'' @ wb], ''Parking''),

    ([wb @ lit ''Lyft'' @ wb, wb @ lit ''LYFT'' @ wb], ''Lyft''),
    ([wb @ lit ''Uber'' @ wb, wb @ lit ''UBER'' @ wb], ''Uber''),

    ([wb @ lit ''ChatGPT'' @ wb, wb @ lit ''OpenAI'' @ wb, wb @ lit ''OPENAI'' @ wb], ''OpenAI''),
    ([wb @ lit ''Claude'' @ wb, wb @ lit ''CLAUDE.AI'' @ wb], ''Anthropic Claude''),
    ([wb @ lit ''Cursor'' @ wb, wb @ lit ''CURSOR'' @ wb], ''Cursor AI''),
    ([wb @ lit ''Twilio'' @ wb, wb @ lit ''TWILIO'' @ wb], ''Twilio''),
    ([wb @ lit ''Foxit'' @ wb, wb @ lit ''FOXIT'' @ wb], ''Foxit''),
    ([wb @ lit ''Fireflies'' @ wb, wb @ lit ''FIREFLIES'' @ wb], ''Fireflies.AI''),
    ([wb @ lit ''GoDaddy'' @ wb, wb @ lit ''GODADDY'' @ wb], ''GoDaddy''),
    ([wb @ lit ''Superhuman'' @ wb, wb @ lit ''SUPERHUMAN'' @ wb], ''Superhuman''),
    ([wb @ lit ''ElevenLabs'' @ wb, wb @ lit ''ELEVENLABS'' @ wb], ''ElevenLabs''),
    ([wb @ lit ''Addigy'' @ wb, wb @ lit ''ADIGY'' @ wb], ''Addigy''),
    ([wb @ lit ''PyCharm'' @ wb], ''JetBrains PyCharm''),
    ([wb @ lit ''Gamma'' @ wb], ''Gamma''),
    ([wb @ lit ''Starlink'' @ wb, wb @ lit ''STARLINK'' @ wb], ''Starlink''),
    ([wb @ lit ''Crystal Reports'' @ wb], ''SAP Crystal Reports''),

    ([wb @ lit ''AT&T'' @ wb, wb @ lit ''ATT'' @ wb, wb @ lit ''Mobile Telephone'' @ wb], ''AT&T''),
    ([wb @ lit ''GFiber'' @ wb, wb @ lit ''Google Fiber'' @ wb,
      wb @ lit ''Utilities'' @ any_star @ lit ''Internet'' @ wb], ''Google Fiber''),
    ([wb @ lit ''Verizon'' @ wb, wb @ lit ''VZW'' @ wb], ''Verizon''),

    ([wb @ lit ''Amazon'' @ wb, wb @ lit ''AMAZON'' @ wb], ''Amazon''),
    ([wb @ lit ''Best Buy'' @ wb, wb @ lit ''BEST BUY'' @ wb], ''Best Buy''),
    ([wb @ lit ''Walmart'' @ wb, wb @ lit ''WALMART'' @ wb], ''Walmart''),
    ([wb @ lit ''Dell'' @ wb, wb @ lit ''DELL'' @ wb], ''Dell''),
    ([wb @ lit ''Apple'' @ wb, wb @ lit ''APPLE'' @ wb], ''Apple''),
    ([wb @ lit ''Owl Labs'' @ wb], ''Owl Labs''),
    ([wb @ lit ''UPS Store'' @ wb, wb @ lit ''UPS'' @ wb @ any_star @ lit ''Shipping''], ''UPS''),

    ([wb @ lit ''Chick-fil-A'' @ wb, wb @ lit ''Chickfila'' @ wb], ''Chick-fil-A''),
    ([wb @ lit ''Chilis'' @ wb, wb @ lit ''Chili'' @ [Opt (CHR 0x27)] @ lit ''s'' @ wb], ''Chilis''),
    ([wb @ lit ''Five Guys'' @ wb], ''Five Guys''),
    ([wb @ lit ''Buffalo Wild Wings'' @ wb], ''Buffalo Wild Wings''),
    ([wb @ lit ''DoorDash'' @ wb], ''DoorDash''),
    ([wb @ lit ''Starbucks'' @ wb], ''Starbucks''),

    ([wb @ lit ''Flight'' @ wb], ''Flight''),
    ([wb @ lit ''Hotel'' @ wb], ''Hotel''),
    ([wb @ lit ''Car Rental'' @ wb, wb @ lit ''Rental Car'' @ wb], ''Car Rental''),
    ([wb @ lit ''Breakfast'' @ wb], ''Meal - Breakfast''),
    ([wb @ lit ''Lunch'' @ wb], ''Meal - Lunch''),
    ([wb @ lit ''Dinner'' @ wb], ''Meal - Dinner''),
    ([wb @ lit ''Meal'' @ wb], ''Meal'')
  ]"

text \<open>The loop \<^verbatim>\<open>for pattern, vendor in VENDOR_PATTERNS\<close> with its early return.\<close>

fun first_match :: "(pattern \<times> string) list \<Rightarrow> string \<Rightarrow> string option" where
  "first_match [] description = None"
| "first_match ((pattern, vendor) # rules) description =
     (if re_search pattern description then Some vendor else first_match rules description)"

definition SKIP_PREFIXES :: "string list" where
  "SKIP_PREFIXES = [''PAYPAL'', ''DNH*'', ''PY'', ''DMI*'', ''IAH'', ''ATL'', ''MSY'', ''DFW'', ''RDU'']"

text \<open>
  The loop \<^verbatim>\<open>for skip in [...]\<close>: the first prefix that \<^verbatim>\<open>words[0]\<close> starts with drops
  that word (\<^verbatim>\<open>words = words[1:]\<close>) and leaves the loop.
\<close>

fun drop_prefixed :: "string list \<Rightarrow> string list \<Rightarrow> exn + string list" where
  "drop_prefixed [] words = Inr words"
| "drop_prefixed (skip # skips) words =
     bind_exn (index words 0) (\<lambda>w0.
       if startswith w0 skip then Inr (drop 1 words) else drop_prefixed skips words)"

definition fallback :: "string \<Rightarrow> exn + string" where
  "fallback description =
     (let words = split description in
      if words \<noteq> [] then
        bind_exn (drop_prefixed SKIP_PREFIXES words) (\<lambda>words.
          if length words \<ge> 2 then Inr (join '' '' (take 2 words))
          else if words \<noteq> [] then index words 0
          else Inr ''Unknown'')
      else Inr ''Unknown'')"

definition extract_vendor :: "string \<Rightarrow> exn + string" where
  "extract_vendor description =
     (case first_match VENDOR_PATTERNS description of
        Some vendor \<Rightarrow> Inr vendor
      | None \<Rightarrow> fallback description)"

section \<open>Amounts\<close>

text \<open>
  \<^verbatim>\<open>float\<close> values. A finite value is represented by the exact rational number that the
  parsed numeral denotes; Python rounds that number to the nearest double, so equal
  representations stand for equal doubles. The sign of a zero is not represented.
\<close>

datatype pyfloat = Finite rat | PosInf | NegInf | NaN

definition is_digit :: "char \<Rightarrow> bool" where
  "is_digit c = (let n = code_of c in 48 \<le> n \<and> n \<le> 57)"

definition digit_val :: "char \<Rightarrow> nat" where
  "digit_val c = code_of c - 48"

definition digits_val :: "string \<Rightarrow> nat" where
  "digits_val ds = foldl (\<lambda>n c. 10 * n + digit_val c) 0 ds"

text \<open>
  Underscores in a numeral: allowed only between two digits, and removed. \<open>prev\<close> is the
  character before the current one (\<open>CHR 0x00\<close> at the start); \<open>None\<close> is a rejected string.
\<close>

fun strip_underscores :: "char \<Rightarrow> string \<Rightarrow> string option" where
  "strip_underscores prev [] = (if prev = CHR ''_'' then None else Some [])"
| "strip_underscores prev (c # cs) =
     (if c = CHR ''_'' then
        (if is_digit prev then strip_underscores c cs else None)
      else if prev = CHR ''_'' \<and> \<not> is_digit c then None
      else map_option (\<lambda>r. c # r) (strip_underscores c cs))"

definition parse_sign :: "string \<Rightarrow> bool \<times> string" where
  "parse_sign s = (case s of
       [] \<Rightarrow> (False, s)
     | c # t \<Rightarrow> if c = CHR ''-'' then (True, t) else if c = CHR ''+'' then (False, t) else (False, s))"

text \<open>The number \<open>\<plusminus> m \<times> 10\<^sup>e\<close>.\<close>

definition scale :: "bool \<Rightarrow> nat \<Rightarrow> int \<Rightarrow> rat" where
  "scale neg m e =
     (if neg then - 1 else 1) * of_nat m * (if 0 \<le> e then 10 ^ nat e else 1 / 10 ^ nat (- e))"

text \<open>The spellings \<^verbatim>\<open>inf\<close>, \<^verbatim>\<open>infinity\<close> and \<^verbatim>\<open>nan\<close>, signed, in any letter case.\<close>

definition inf_or_nan :: "string \<Rightarrow> exn + pyfloat" where
  "inf_or_nan s =
     (let (neg, t) = parse_sign s; w = map lower t in
      if w = ''inf'' \<or> w = ''infinity'' then Inr (if neg then NegInf else PosInf)
      else if w = ''nan'' then Inr NaN
      else Inl ValueError)"

text \<open>
  \<^verbatim>\<open>float(s)\<close> for a string \<open>s\<close> without surrounding whitespace (\<^verbatim>\<open>parse_amount\<close> passes
  a trimmed string): an optional sign, digits with an optional fraction, an optional exponent;
  or one of the special spellings. Anything else raises \<^verbatim>\<open>ValueError\<close>.
\<close>

definition py_float :: "string \<Rightarrow> exn + pyfloat" where
  "py_float s =
     (case strip_underscores (CHR 0x00) s of
        None \<Rightarrow> Inl ValueError
      | Some t \<Rightarrow>
         (let (neg, t1) = parse_sign t;
              ip = takeWhile is_digit t1;
              r1 = dropWhile is_digit t1;
              (fp, r2) = (case r1 of
                  [] \<Rightarrow> ([], r1)
                | c # u \<Rightarrow> if c = CHR ''.'' then (takeWhile is_digit u, dropWhile is_digit u)
                           else ([], r1))
          in if ip = [] \<and> fp = [] then inf_or_nan t
             else (case r2 of
                 [] \<Rightarrow> Inr (Finite (scale neg (digits_val (ip @ fp)) (- int (length fp))))
               | c # u \<Rightarrow>
                   if c = CHR ''e'' \<or> c = CHR ''E'' then
                     (let (eneg, ds) = parse_sign u;
                          ex = (if eneg then - int (digits_val ds) else int (digits_val ds))
                      in if ds \<noteq> [] \<and> list_all is_digit ds
                         then Inr (Finite (scale neg (digits_val (ip @ fp)) (ex - int (length fp))))
                         else Inl ValueError)
                   else Inl ValueError)))"

text \<open>\<^verbatim>\<open>parse_amount\<close>: the \<^verbatim>\<open>try\<close> block catches \<^verbatim>\<open>ValueError\<close> only.\<close>

definition clean_amount :: "string \<Rightarrow> string" where
  "clean_amount amount_str = strip (remove_char (CHR '','') (remove_char (CHR ''$'') amount_str))"

definition parse_amount :: "string \<Rightarrow> exn + pyfloat" where
  "parse_amount amount_str =
     (case py_float (clean_amount amount_str) of
        Inr v \<Rightarrow> Inr v
      | Inl ValueError \<Rightarrow> Inr (Finite 0)
      | Inl e \<Rightarrow> Inl e)"

section \<open>Table extractor\<close>

record ExpenseLine =
  date :: string
  description :: string
  vendor :: string
  amount :: pyfloat
  gl_code :: string
  department :: string
  source_file :: string

text \<open>The loop variables of \<^verbatim>\<open>parse_markdown_file\<close>.\<close>

record scan =
  in_table :: bool
  header_found :: bool
  expenses :: "ExpenseLine list"

text \<open>The two list comprehensions that turn a row into its fields.\<close>

definition row_parts :: "string \<Rightarrow> string list" where
  "row_parts line = filter (\<lambda>p. p \<noteq> []) (map strip (split_on (CHR ''|'') line))"

text \<open>The body of \<^verbatim>\<open>if len(parts) >= 5\<close>.\<close>

definition make_expense :: "string \<Rightarrow> string list \<Rightarrow> exn + ExpenseLine" where
  "make_expense name parts =
     bind_exn (index parts 0) (\<lambda>d.
     bind_exn (index parts 1) (\<lambda>p1.
     bind_exn (index parts 2) (\<lambda>dep.
     bind_exn (index parts 3) (\<lambda>descr.
     bind_exn (index parts 4) (\<lambda>amount_str.
     bind_exn (extract_vendor descr) (\<lambda>v.
     bind_exn (parse_amount amount_str) (\<lambda>a.
       Inr \<lparr>date = d, description = descr, vendor = v, amount = a,
            gl_code = remove_char (CHR ''.'') p1, department = dep,
            source_file = name\<rparr>)))))))"

definition is_header :: "string \<Rightarrow> bool" where
  "is_header line = (contains line ''| Date |'' \<and> contains line ''GL Acct'')"

text \<open>One iteration of \<^verbatim>\<open>for line in lines\<close>; each \<^verbatim>\<open>continue\<close> is a branch.\<close>

definition scan_line :: "string \<Rightarrow> scan \<Rightarrow> string \<Rightarrow> exn + scan" where
  "scan_line name st raw =
     (let line = strip raw in
      if line = [] then Inr st
      else if is_header line then Inr (st\<lparr>in_table := True, header_found := True\<rparr>)
      else if in_table st \<and> startswith line ''|---'' then Inr st
      else if in_table st \<and> (contains line ''**Total'' \<or> \<not> startswith line ''|'') then
        Inr (st\<lparr>in_table := False\<rparr>)
      else if in_table st \<and> startswith line ''|'' then
        (let parts = row_parts line in
         if length parts \<ge> 5 then
           bind_exn (make_expense name parts) (\<lambda>e. Inr (st\<lparr>expenses := expenses st @ [e]\<rparr>))
         else Inr st)
      else Inr st)"

fun scan_lines :: "string \<Rightarrow> scan \<Rightarrow> string list \<Rightarrow> exn + scan" where
  "scan_lines name st [] = Inr st"
| "scan_lines name st (l # ls) = bind_exn (scan_line name st l) (\<lambda>st'. scan_lines name st' ls)"

definition initial :: scan where
  "initial = \<lparr>in_table = False, header_found = False, expenses = []\<rparr>"

text \<open>
  \<^verbatim>\<open>parse_markdown_file\<close>, given the file's name and the text that \<^verbatim>\<open>read_text()\<close> returned.
\<close>

definition parse_markdown_file :: "string \<Rightarrow> string \<Rightarrow> exn + ExpenseLine list" where
  "parse_markdown_file name content =
     bind_exn (scan_lines name initial (split_on (CHR 0x0A) content)) (\<lambda>st. Inr (expenses st))"

section \<open>Auxiliary notions\<close>

text \<open>The words that remain after the prefix loop of the fallback.\<close>

definition after_skip :: "string list \<Rightarrow> string list" where
  "after_skip toks =
     (if toks \<noteq> [] \<and> (\<exists>p\<in>set SKIP_PREFIXES. startswith (hd toks) p) then tl toks else toks)"

text \<open>
  The classifier and the amount parser never raise (\<open>extract_vendor_vendor_of\<close>,
  \<open>parse_amount_amount_of\<close> below); these are their results as plain values, the record
  built from a row's fields, and one iteration of the scanning loop as a plain state.
\<close>

definition vendor_of :: "string \<Rightarrow> string" where
  "vendor_of d = (case extract_vendor d of Inr v \<Rightarrow> v | Inl e \<Rightarrow> [])"

definition amount_of :: "string \<Rightarrow> pyfloat" where
  "amount_of s = (case parse_amount s of Inr a \<Rightarrow> a | Inl e \<Rightarrow> Finite 0)"

definition row_record :: "string \<Rightarrow> string list \<Rightarrow> ExpenseLine" where
  "row_record name parts =
     \<lparr>date = parts ! 0, description = parts ! 3, vendor = vendor_of (parts ! 3),
      amount = amount_of (parts ! 4), gl_code = remove_char (CHR ''.'') (parts ! 1),
      department = parts ! 2, source_file = name\<rparr>"

definition next_scan :: "string \<Rightarrow> scan \<Rightarrow> string \<Rightarrow> scan" where
  "next_scan name st raw =
     (let line = strip raw in
      if line = [] then st
      else if is_header line then st\<lparr>in_table := True, header_found := True\<rparr>
      else if in_table st \<and> startswith line ''|---'' then st
      else if in_table st \<and> (contains line ''**Total'' \<or> \<not> startswith line ''|'') then
        st\<lparr>in_table := False\<rparr>
      else if in_table st \<and> startswith line ''|'' \<and> 5 \<le> length (row_parts line) then
        st\<lparr>expenses := expenses st @ [row_record name (row_parts line)]\<rparr>
      else st)"

section \<open>Evaluation tables\<close>

text \<open>The character classes on printable ASCII, for evaluating the functions on literals.\<close>

lemma lower_table:
  "lower (CHR '' '') = CHR '' ''" "lower (CHR ''!'') = CHR ''!''"
  "lower (CHR 0x22) = CHR 0x22" "lower (CHR ''#'') = CHR ''#''"
  "lower (CHR ''$'') = CHR ''$''" "lower (CHR ''%'') = CHR ''%''"
  "lower (CHR ''&'') = CHR ''&''" "lower (CHR 0x27) = CHR 0x27"
  "lower (CHR ''('') = CHR ''(''" "lower (CHR '')'') = CHR '')''"
  "lower (CHR ''*'') = CHR ''*''" "lower (CHR ''+'') = CHR ''+''"
  "lower (CHR '','') = CHR '',''" "lower (CHR ''-'') = CHR ''-''"
  "lower (CHR ''.'') = CHR ''.''" "lower (CHR ''/'') = CHR ''/''"
  "lower (CHR ''0'') = CHR ''0''" "lower (CHR ''1'') = CHR ''1''"
  "lower (CHR ''2'') = CHR ''2''" "lower (CHR ''3'') = CHR ''3''"
  "lower (CHR ''4'') = CHR ''4''" "lower (CHR ''5'') = CHR ''5''"
  "lower (CHR ''6'') = CHR ''6''" "lower (CHR ''7'') = CHR ''7''"
  "lower (CHR ''8'') = CHR ''8''" "lower (CHR ''9'') = CHR ''9''"
  "lower (CHR '':'') = CHR '':''" "lower (CHR '';'') = CHR '';''"
  "lower (CHR ''<'') = CHR ''<''" "lower (CHR ''='') = CHR ''=''"
  "lower (CHR ''>'') = CHR ''>''" "lower (CHR ''?'') = CHR ''?''"
  "lower (CHR ''@'') = CHR ''@''" "lower (CHR ''A'') = CHR ''a''"
  "lower (CHR ''B'') = CHR ''b''" "lower (CHR ''C'') = CHR ''c''"
  "lower (CHR ''D'') = CHR ''d''" "lower (CHR ''E'') = CHR ''e''"
  "lower (CHR ''F'') = CHR ''f''" "lower (CHR ''G'') = CHR ''g''"
  "lower (CHR ''H'') = CHR ''h''" "lower (CHR ''I'') = CHR ''i''"
  "lower (CHR ''J'') = CHR ''j''" "lower (CHR ''K'') = CHR ''k''"
  "lower (CHR ''L'') = CHR ''l''" "lower (CHR ''M'') = CHR ''m''"
  "lower (CHR ''N'') = CHR ''n''" "lower (CHR ''O'') = CHR ''o''"
  "lower (CHR ''P'') = CHR ''p''" "lower (CHR ''Q'') = CHR ''q''"
  "lower (CHR ''R'') = CHR ''r''" "lower (CHR ''S'') = CHR ''s''"
  "lower (CHR ''T'') = CHR ''t''" "lower (CHR ''U'') = CHR ''u''"
  "lower (CHR ''V'') = CHR ''v''" "lower (CHR ''W'') = CHR ''w''"
  "lower (CHR ''X'') = CHR ''x''" "lower (CHR ''Y'') = CHR ''y''"
  "lower (CHR ''Z'') = CHR ''z''" "lower (CHR ''['') = CHR ''[''"
  "lower (CHR 0x5C) = CHR 0x5C" "lower (CHR '']'') = CHR '']''"
  "lower (CHR ''^'') = CHR ''^''" "lower (CHR ''_'') = CHR ''_''"
  "lower (CHR 0x60) = CHR 0x60" "lower (CHR ''a'') = CHR ''a''"
  "lower (CHR ''b'') = CHR ''b''" "lower (CHR ''c'') = CHR ''c''"
  "lower (CHR ''d'') = CHR ''d''" "lower (CHR ''e'') = CHR ''e''"
  "lower (CHR ''f'') = CHR ''f''" "lower (CHR ''g'') = CHR ''g''"
  "lower (CHR ''h'') = CHR ''h''" "lower (CHR ''i'') = CHR ''i''"
  "lower (CHR ''j'') = CHR ''j''" "lower (CHR ''k'') = CHR ''k''"
  "lower (CHR ''l'') = CHR ''l''" "lower (CHR ''m'') = CHR ''m''"
  "lower (CHR ''n'') = CHR ''n''" "lower (CHR ''o'') = CHR ''o''"
  "lower (CHR ''p'') = CHR ''p''" "lower (CHR ''q'') = CHR ''q''"
  "lower (CHR ''r'') = CHR ''r''" "lower (CHR ''s'') = CHR ''s''"
  "lower (CHR ''t'') = CHR ''t''" "lower (CHR ''u'') = CHR ''u''"
  "lower (CHR ''v'') = CHR ''v''" "lower (CHR ''w'') = CHR ''w''"
  "lower (CHR ''x'') = CHR ''x''" "lower (CHR ''y'') = CHR ''y''"
  "lower (CHR ''z'') = CHR ''z''" "lower (CHR ''{'') = CHR ''{''"
  "lower (CHR ''|'') = CHR ''|''" "lower (CHR ''}'') = CHR ''}''"
  "lower (CHR ''~'') = CHR ''~''"
  by code_simp+

lemma is_word_table:
  "\<not> is_word (CHR '' '')" "\<not> is_word (CHR ''!'')" "\<not> is_word (CHR 0x22)"
  "\<not> is_word (CHR ''#'')" "\<not> is_word (CHR ''$'')" "\<not> is_word (CHR ''%'')"
  "\<not> is_word (CHR ''&'')" "\<not> is_word (CHR 0x27)" "\<not> is_word (CHR ''('')"
  "\<not> is_word (CHR '')'')" "\<not> is_word (CHR ''*'')" "\<not> is_word (CHR ''+'')"
  "\<not> is_word (CHR '','')" "\<not> is_word (CHR ''-'')" "\<not> is_word (CHR ''.'')"
  "\<not> is_word (CHR ''/'')" "is_word (CHR ''0'')" "is_word (CHR ''1'')"
  "is_word (CHR ''2'')" "is_word (CHR ''3'')" "is_word (CHR ''4'')"
  "is_word (CHR ''5'')" "is_word (CHR ''6'')" "is_word (CHR ''7'')"
  "is_word (CHR ''8'')" "is_word (CHR ''9'')" "\<not> is_word (CHR '':'')"
  "\<not> is_word (CHR '';'')" "\<not> is_word (CHR ''<'')" "\<not> is_word (CHR ''='')"
  "\<not> is_word (CHR ''>'')" "\<not> is_word (CHR ''?'')" "\<not> is_word (CHR ''@'')"
  "is_word (CHR ''A'')" "is_word (CHR ''B'')" "is_word (CHR ''C'')"
  "is_word (CHR ''D'')" "is_word (CHR ''E'')" "is_word (CHR ''F'')"
  "is_word (CHR ''G'')" "is_word (CHR ''H'')" "is_word (CHR ''I'')"
  "is_word (CHR ''J'')" "is_word (CHR ''K'')" "is_word (CHR ''L'')"
  "is_word (CHR ''M'')" "is_word (CHR ''N'')" "is_word (CHR ''O'')"
  "is_word (CHR ''P'')" "is_word (CHR ''Q'')" "is_word (CHR ''R'')"
  "is_word (CHR ''S'')" "is_word (CHR ''T'')" "is_word (CHR ''U'')"
  "is_word (CHR ''V'')" "is_word (CHR ''W'')" "is_word (CHR ''X'')"
  "is_word (CHR ''Y'')" "is_word (CHR ''Z'')" "\<not> is_word (CHR ''['')"
  "\<not> is_word (CHR 0x5C)" "\<not> is_word (CHR '']'')" "\<not> is_word (CHR ''^'')"
  "is_word (CHR ''_'')" "\<not> is_word (CHR 0x60)" "is_word (CHR ''a'')"
  "is_word (CHR ''b'')" "is_word (CHR ''c'')" "is_word (CHR ''d'')"
  "is_word (CHR ''e'')" "is_word (CHR ''f'')" "is_word (CHR ''g'')"
  "is_word (CHR ''h'')" "is_word (CHR ''i'')" "is_word (CHR ''j'')"
  "is_word (CHR ''k'')" "is_word (CHR ''l'')" "is_word (CHR ''m'')"
  "is_word (CHR ''n'')" "is_word (CHR ''o'')" "is_word (CHR ''p'')"
  "is_word (CHR ''q'')" "is_word (CHR ''r'')" "is_word (CHR ''s'')"
  "is_word (CHR ''t'')" "is_word (CHR ''u'')" "is_word (CHR ''v'')"
  "is_word (CHR ''w'')" "is_word (CHR ''x'')" "is_word (CHR ''y'')"
  "is_word (CHR ''z'')" "\<not> is_word (CHR ''{'')" "\<not> is_word (CHR ''|'')"
  "\<not> is_word (CHR ''}'')" "\<not> is_word (CHR ''~'')"
  by code_simp+

lemma is_space_table:
  "is_space (CHR '' '')" "\<not> is_space (CHR ''!'')" "\<not> is_space (CHR 0x22)"
  "\<not> is_space (CHR ''#'')" "\<not> is_space (CHR ''$'')" "\<not> is_space (CHR ''%'')"
  "\<not> is_space (CHR ''&'')" "\<not> is_space (CHR 0x27)" "\<not> is_space (CHR ''('')"
  "\<not> is_space (CHR '')'')" "\<not> is_space (CHR ''*'')" "\<not> is_space (CHR ''+'')"
  "\<not> is_space (CHR '','')" "\<not> is_space (CHR ''-'')" "\<not> is_space (CHR ''.'')"
  "\<not> is_space (CHR ''/'')" "\<not> is_space (CHR ''0'')" "\<not> is_space (CHR ''1'')"
  "\<not> is_space (CHR ''2'')" "\<not> is_space (CHR ''3'')" "\<not> is_space (CHR ''4'')"
  "\<not> is_space (CHR ''5'')" "\<not> is_space (CHR ''6'')" "\<not> is_space (CHR ''7'')"
  "\<not> is_space (CHR ''8'')" "\<not> is_space (CHR ''9'')" "\<not> is_space (CHR '':'')"
  "\<not> is_space (CHR '';'')" "\<not> is_space (CHR ''<'')" "\<not> is_space (CHR ''='')"
  "\<not> is_space (CHR ''>'')" "\<not> is_space (CHR ''?'')" "\<not> is_space (CHR ''@'')"
  "\<not> is_space (CHR ''A'')" "\<not> is_space (CHR ''B'')" "\<not> is_space (CHR ''C'')"
  "\<not> is_space (CHR ''D'')" "\<not> is_space (CHR ''E'')" "\<not> is_space (CHR ''F'')"
  "\<not> is_space (CHR ''G'')" "\<not> is_space (CHR ''H'')" "\<not> is_space (CHR ''I'')"
  "\<not> is_space (CHR ''J'')" "\<not> is_space (CHR ''K'')" "\<not> is_space (CHR ''L'')"
  "\<not> is_space (CHR ''M'')" "\<not> is_space (CHR ''N'')" "\<not> is_space (CHR ''O'')"
  "\<not> is_space (CHR ''P'')" "\<not> is_space (CHR ''Q'')" "\<not> is_space (CHR ''R'')"
  "\<not> is_space (CHR ''S'')" "\<not> is_space (CHR ''T'')" "\<not> is_space (CHR ''U'')"
  "\<not> is_space (CHR ''V'')" "\<not> is_space (CHR ''W'')" "\<not> is_space (CHR ''X'')"
  "\<not> is_space (CHR ''Y'')" "\<not> is_space (CHR ''Z'')" "\<not> is_space (CHR ''['')"
  "\<not> is_space (CHR 0x5C)" "\<not> is_space (CHR '']'')" "\<not> is_space (CHR ''^'')"
  "\<not> is_space (CHR ''_'')" "\<not> is_space (CHR 0x60)" "\<not> is_space (CHR ''a'')"
  "\<not> is_space (CHR ''b'')" "\<not> is_space (CHR ''c'')" "\<not> is_space (CHR ''d'')"
  "\<not> is_space (CHR ''e'')" "\<not> is_space (CHR ''f'')" "\<not> is_space (CHR ''g'')"
  "\<not> is_space (CHR ''h'')" "\<not> is_space (CHR ''i'')" "\<not> is_space (CHR ''j'')"
  "\<not> is_space (CHR ''k'')" "\<not> is_space (CHR ''l'')" "\<not> is_space (CHR ''m'')"
  "\<not> is_space (CHR ''n'')" "\<not> is_space (CHR ''o'')" "\<not> is_space (CHR ''p'')"
  "\<not> is_space (CHR ''q'')" "\<not> is_space (CHR ''r'')" "\<not> is_space (CHR ''s'')"
  "\<not> is_space (CHR ''t'')" "\<not> is_space (CHR ''u'')" "\<not> is_space (CHR ''v'')"
  "\<not> is_space (CHR ''w'')" "\<not> is_space (CHR ''x'')" "\<not> is_space (CHR ''y'')"
  "\<not> is_space (CHR ''z'')" "\<not> is_space (CHR ''{'')" "\<not> is_space (CHR ''|'')"
  "\<not> is_space (CHR ''}'')" "\<not> is_space (CHR ''~'')"
  by code_simp+

lemmas regex_eval = lit_def wb_def any_star_def re_search_def lit_eq_def
  at_boundary_def word_before_def word_next_def lower_table is_word_table

lemma is_digit_table:
  "\<not> is_digit (CHR '' '')" "\<not> is_digit (CHR ''!'')" "\<not> is_digit (CHR 0x22)"
  "\<not> is_digit (CHR ''#'')" "\<not> is_digit (CHR ''$'')" "\<not> is_digit (CHR ''%'')"
  "\<not> is_digit (CHR ''&'')" "\<not> is_digit (CHR 0x27)" "\<not> is_digit (CHR ''('')"
  "\<not> is_digit (CHR '')'')" "\<not> is_digit (CHR ''*'')" "\<not> is_digit (CHR ''+'')"
  "\<not> is_digit (CHR '','')" "\<not> is_digit (CHR ''-'')" "\<not> is_digit (CHR ''.'')"
  "\<not> is_digit (CHR ''/'')" "is_digit (CHR ''0'')" "is_digit (CHR ''1'')"
  "is_digit (CHR ''2'')" "is_digit (CHR ''3'')" "is_digit (CHR ''4'')"
  "is_digit (CHR ''5'')" "is_digit (CHR ''6'')" "is_digit (CHR ''7'')"
  "is_digit (CHR ''8'')" "is_digit (CHR ''9'')" "\<not> is_digit (CHR '':'')"
  "\<not> is_digit (CHR '';'')" "\<not> is_digit (CHR ''<'')" "\<not> is_digit (CHR ''='')"
  "\<not> is_digit (CHR ''>'')" "\<not> is_digit (CHR ''?'')" "\<not> is_digit (CHR ''@'')"
  "\<not> is_digit (CHR ''A'')" "\<not> is_digit (CHR ''B'')" "\<not> is_digit (CHR ''C'')"
  "\<not> is_digit (CHR ''D'')" "\<not> is_digit (CHR ''E'')" "\<not> is_digit (CHR ''F'')"
  "\<not> is_digit (CHR ''G'')" "\<not> is_digit (CHR ''H'')" "\<not> is_digit (CHR ''I'')"
  "\<not> is_digit (CHR ''J'')" "\<not> is_digit (CHR ''K'')" "\<not> is_digit (CHR ''L'')"
  "\<not> is_digit (CHR ''M'')" "\<not> is_digit (CHR ''N'')" "\<not> is_digit (CHR ''O'')"
  "\<not> is_digit (CHR ''P'')" "\<not> is_digit (CHR ''Q'')" "\<not> is_digit (CHR ''R'')"
  "\<not> is_digit (CHR ''S'')" "\<not> is_digit (CHR ''T'')" "\<not> is_digit (CHR ''U'')"
  "\<not> is_digit (CHR ''V'')" "\<not> is_digit (CHR ''W'')" "\<not> is_digit (CHR ''X'')"
  "\<not> is_digit (CHR ''Y'')" "\<not> is_digit (CHR ''Z'')" "\<not> is_digit (CHR ''['')"
  "\<not> is_digit (CHR 0x5C)" "\<not> is_digit (CHR '']'')" "\<not> is_digit (CHR ''^'')"
  "\<not> is_digit (CHR ''_'')" "\<not> is_digit (CHR 0x60)" "\<not> is_digit (CHR ''a'')"
  "\<not> is_digit (CHR ''b'')" "\<not> is_digit (CHR ''c'')" "\<not> is_digit (CHR ''d'')"
  "\<not> is_digit (CHR ''e'')" "\<not> is_digit (CHR ''f'')" "\<not> is_digit (CHR ''g'')"
  "\<not> is_digit (CHR ''h'')" "\<not> is_digit (CHR ''i'')" "\<not> is_digit (CHR ''j'')"
  "\<not> is_digit (CHR ''k'')" "\<not> is_digit (CHR ''l'')" "\<not> is_digit (CHR ''m'')"
  "\<not> is_digit (CHR ''n'')" "\<not> is_digit (CHR ''o'')" "\<not> is_digit (CHR ''p'')"
  "\<not> is_digit (CHR ''q'')" "\<not> is_digit (CHR ''r'')" "\<not> is_digit (CHR ''s'')"
  "\<not> is_digit (CHR ''t'')" "\<not> is_digit (CHR ''u'')" "\<not> is_digit (CHR ''v'')"
  "\<not> is_digit (CHR ''w'')" "\<not> is_digit (CHR ''x'')" "\<not> is_digit (CHR ''y'')"
  "\<not> is_digit (CHR ''z'')" "\<not> is_digit (CHR ''{'')" "\<not> is_digit (CHR ''|'')"
  "\<not> is_digit (CHR ''}'')" "\<not> is_digit (CHR ''~'')"
  by code_simp+

lemma digit_val_table:
  "digit_val (CHR ''0'') = 0" "digit_val (CHR ''1'') = 1" "digit_val (CHR ''2'') = 2"
  "digit_val (CHR ''3'') = 3" "digit_val (CHR ''4'') = 4" "digit_val (CHR ''5'') = 5"
  "digit_val (CHR ''6'') = 6" "digit_val (CHR ''7'') = 7" "digit_val (CHR ''8'') = 8"
  "digit_val (CHR ''9'') = 9"
  by code_simp+

lemma is_space_newline: "is_space (CHR 0x0A)"
  by code_simp

lemmas text_eval = strip_def split_on_def split_def is_space_table is_space_newline
  row_parts_def remove_char_def is_header_def

lemmas amount_eval = parse_amount_def clean_amount_def py_float_def inf_or_nan_def
  parse_sign_def scale_def digits_val_def is_digit_table digit_val_table lower_table
  strip_def is_space_table remove_char_def

lemmas vendor_eval = extract_vendor_def VENDOR_PATTERNS_def regex_eval fallback_def
  split_def is_space_table SKIP_PREFIXES_def bind_exn_def index_def

section \<open>Properties of the regular-expression search\<close>

lemma code_of_char_of: "n < 256 \<Longrightarrow> code_of (char_of n) = n"
  by (simp add: code_of_def)

lemma code_of_inj: "code_of c = code_of d \<Longrightarrow> c = d"
  by (simp add: code_of_def)

lemma lower_idem: "lower (lower c) = lower c"
  by (simp add: lower_def Let_def code_of_char_of)

lemma is_word_lower: "is_word (lower c) = is_word c"
  by (auto simp add: lower_def is_word_def Let_def code_of_char_of)

lemma code_of_newline: "code_of (CHR 0x0A) = 10"
  by (simp add: code_of_def)

lemma lower_newline: "(lower x = CHR 0x0A) = (x = CHR 0x0A)"
proof
  assume "lower x = CHR 0x0A"
  then have "code_of (lower x) = 10" by (simp add: code_of_newline)
  then show "x = CHR 0x0A"
    by (auto simp add: lower_def Let_def code_of_char_of code_of_newline
        split: if_splits intro: code_of_inj)
next
  assume "x = CHR 0x0A"
  then show "lower x = CHR 0x0A" by (simp add: lower_def Let_def code_of_newline)
qed

lemma lower_nl: "lower (CHR 0x0A) = CHR 0x0A"
  by (simp add: lower_def Let_def code_of_newline)

lemma match_here_lower:
  "match_here r (map_option lower prev) (map lower s) = match_here r prev s"
proof (induction r prev s rule: match_here.induct)
  case (4 r prev s)
  have "at_boundary (map_option lower prev) (map lower s) = at_boundary prev s"
    by (cases prev; cases s) (simp_all add: at_boundary_def word_before_def word_next_def is_word_lower)
  with 4 show ?case by simp
qed (auto simp add: lit_eq_def lower_idem lower_newline lower_nl)

lemma match_any_lower:
  "match_any p (map_option lower prev) (map lower s) = match_any p prev s"
  by (induction p) (simp_all add: match_here_lower)

lemma search_from_lower:
  "search_from p (map_option lower prev) (map lower s) = search_from p prev s"
proof (induction s arbitrary: prev)
  case Nil
  show ?case using match_any_lower [of p prev "[]"] by simp
next
  case (Cons x xs)
  have "match_any p (map_option lower prev) (map lower (x # xs)) = match_any p prev (x # xs)"
    by (rule match_any_lower)
  moreover have "search_from p (Some (lower x)) (map lower xs) = search_from p (Some x) xs"
    using Cons [of "Some x"] by simp
  ultimately show ?case by simp
qed

lemma re_search_lower: "re_search p (map lower s) = re_search p s"
  using search_from_lower [of p None s] by (simp add: re_search_def)

lemma re_search_ignorecase: "map lower s = map lower t \<Longrightarrow> re_search p s = re_search p t"
  using re_search_lower [of p s] re_search_lower [of p t] by simp

lemma search_from_anywhere:
  "search_from p prev s =
     (\<exists>pre post. s = pre @ post \<and> match_any p (if pre = [] then prev else Some (last pre)) post)"
proof (induction s arbitrary: prev)
  case Nil
  then show ?case by simp
next
  case (Cons x xs)
  show ?case
  proof
    assume "search_from p prev (x # xs)"
    then consider "match_any p prev (x # xs)" | "search_from p (Some x) xs"
      by (auto split: if_splits)
    then show "\<exists>pre post. x # xs = pre @ post \<and>
        match_any p (if pre = [] then prev else Some (last pre)) post"
    proof cases
      case 1
      then have "x # xs = [] @ (x # xs) \<and>
        match_any p (if ([]::string) = [] then prev else Some (last [])) (x # xs)" by simp
      then show ?thesis by blast
    next
      case 2
      with Cons [of "Some x"] obtain pre post where pp: "xs = pre @ post"
        "match_any p (if pre = [] then Some x else Some (last pre)) post" by blast
      then have "x # xs = (x # pre) @ post \<and>
        match_any p (if x # pre = [] then prev else Some (last (x # pre))) post"
        by (auto split: if_splits)
      then show ?thesis by blast
    qed
  next
    assume "\<exists>pre post. x # xs = pre @ post \<and>
        match_any p (if pre = [] then prev else Some (last pre)) post"
    then obtain pre post where pp: "x # xs = pre @ post"
      "match_any p (if pre = [] then prev else Some (last pre)) post" by blast
    show "search_from p prev (x # xs)"
    proof (cases pre)
      case Nil
      with pp have "match_any p prev (x # xs)" by simp
      then show ?thesis by simp
    next
      case (Cons y ys)
      with pp have "xs = ys @ post" "match_any p (if ys = [] then Some x else Some (last ys)) post"
        by (auto split: if_splits)
      then have "search_from p (Some x) xs" using Cons.IH [of "Some x"] by blast
      then show ?thesis by simp
    qed
  qed
qed


lemma re_search_anywhere:
  "re_search p s =
     (\<exists>pre post. s = pre @ post \<and> match_any p (if pre = [] then None else Some (last pre)) post)"
  unfolding re_search_def by (rule search_from_anywhere)

section \<open>Properties of the classifier\<close>

lemma first_match_index:
  "i < length rs \<Longrightarrow> re_search (fst (rs ! i)) d \<Longrightarrow>
   \<forall>j<i. \<not> re_search (fst (rs ! j)) d \<Longrightarrow> first_match rs d = Some (snd (rs ! i))"
proof (induction rs arbitrary: i)
  case Nil
  then show ?case by simp
next
  case (Cons r rs)
  obtain p v where r: "r = (p, v)" by (cases r)
  show ?case
  proof (cases i)
    case 0
    with Cons.prems r show ?thesis by simp
  next
    case (Suc k)
    from Cons.prems(3) Suc have "\<not> re_search p d" using r by auto
    moreover have "first_match rs d = Some (snd (rs ! k))"
    proof (rule Cons.IH)
      show "k < length rs" using Cons.prems(1) Suc by simp
      show "re_search (fst (rs ! k)) d" using Cons.prems(2) Suc by simp
      show "\<forall>j<k. \<not> re_search (fst (rs ! j)) d"
      proof (intro allI impI)
        fix j assume "j < k"
        then have "Suc j < i" using Suc by simp
        with Cons.prems(3) have "\<not> re_search (fst ((r # rs) ! Suc j)) d" by blast
        then show "\<not> re_search (fst (rs ! j)) d" by simp
      qed
    qed
    ultimately show ?thesis using r Suc by simp
  qed
qed

lemma first_match_None:
  "first_match rs d = None \<Longrightarrow> i < length rs \<Longrightarrow> \<not> re_search (fst (rs ! i)) d"
proof (induction rs arbitrary: i)
  case Nil
  then show ?case by simp
next
  case (Cons r rs)
  obtain p v where r: "r = (p, v)" by (cases r)
  from Cons.prems(1) r have np: "\<not> re_search p d" and rest: "first_match rs d = None"
    by (auto split: if_splits)
  show ?case
  proof (cases i)
    case 0
    with np r show ?thesis by simp
  next
    case (Suc k)
    with Cons.prems(2) have "k < length rs" by simp
    with Cons.IH rest have "\<not> re_search (fst (rs ! k)) d" by blast
    with Suc show ?thesis by simp
  qed
qed

lemma first_match_Some:
  "first_match rs d = Some v \<Longrightarrow>
   \<exists>m<length rs. v = snd (rs ! m) \<and> re_search (fst (rs ! m)) d \<and>
      (\<forall>j<m. \<not> re_search (fst (rs ! j)) d)"
proof (induction rs)
  case Nil
  then show ?case by simp
next
  case (Cons r rs)
  obtain p w where r: "r = (p, w)" by (cases r)
  show ?case
  proof (cases "re_search p d")
    case True
    with Cons.prems r have "v = w" by simp
    with True r have "0 < length (r # rs) \<and> v = snd ((r # rs) ! 0) \<and>
      re_search (fst ((r # rs) ! 0)) d \<and> (\<forall>j<0. \<not> re_search (fst ((r # rs) ! j)) d)"
      by simp
    then show ?thesis by blast
  next
    case False
    with Cons.prems r have "first_match rs d = Some v" by simp
    with Cons.IH obtain m where m: "m < length rs" "v = snd (rs ! m)"
      "re_search (fst (rs ! m)) d" "\<forall>j<m. \<not> re_search (fst (rs ! j)) d" by blast
    have "\<forall>j<Suc m. \<not> re_search (fst ((r # rs) ! j)) d"
    proof (intro allI impI)
      fix j assume j: "j < Suc m"
      show "\<not> re_search (fst ((r # rs) ! j)) d"
      proof (cases j)
        case 0
        with False r show ?thesis by simp
      next
        case (Suc k)
        with j m(4) show ?thesis by simp
      qed
    qed
    with m have "Suc m < length (r # rs) \<and> v = snd ((r # rs) ! Suc m) \<and>
      re_search (fst ((r # rs) ! Suc m)) d \<and> (\<forall>j<Suc m. \<not> re_search (fst ((r # rs) ! j)) d)"
      by simp
    then show ?thesis by blast
  qed
qed

lemma labels_distinct: "distinct (map snd VENDOR_PATTERNS)"
  by (simp add: VENDOR_PATTERNS_def)

lemma length_VENDOR_PATTERNS: "length VENDOR_PATTERNS = 52"
  by (simp add: VENDOR_PATTERNS_def)

lemma hampton_rule: "VENDOR_PATTERNS ! 4 =
    ([wb @ lit ''Hampton Inn'' @ wb, wb @ lit ''HAMPTON INN'' @ wb], ''Hampton Inn'')"
  by (simp add: VENDOR_PATTERNS_def)

lemma hotel_rule: "VENDOR_PATTERNS ! 46 = ([wb @ lit ''Hotel'' @ wb], ''Hotel'')"
  by (simp add: VENDOR_PATTERNS_def)

lemma airline_rules_miss:
  "\<forall>j<4. \<not> re_search (fst (VENDOR_PATTERNS ! j)) ''Hampton Inn Hotel''"
proof (intro allI impI)
  fix j :: nat assume "j < 4"
  then consider "j = 0" | "j = 1" | "j = 2" | "j = 3" by linarith
  then show "\<not> re_search (fst (VENDOR_PATTERNS ! j)) ''Hampton Inn Hotel''"
    by cases (simp_all add: VENDOR_PATTERNS_def regex_eval)
qed


text \<open>
  Claim C1. The classifier tests the rules of \<open>VENDOR_PATTERNS\<close> from top to bottom and returns
  the label of the first rule whose pattern matches: if rule \<open>i\<close> matches the description and
  no rule before it does, the result is the label of rule \<open>i\<close>. When two rules \<open>i < k\<close> both
  match, the result is never the label of the later rule \<open>k\<close>; it is the label of the first
  matching rule, at position \<open>i\<close> or before. A pattern matches when one of its alternatives matches at
  some position of the description, and the test does not depend on the letter case of the
  description.
\<close>

theorem classifier_first_match_wins:
  "(i < length VENDOR_PATTERNS \<and> re_search (fst (VENDOR_PATTERNS ! i)) d \<and>
      (\<forall>j<i. \<not> re_search (fst (VENDOR_PATTERNS ! j)) d)
     \<longrightarrow> extract_vendor d = Inr (snd (VENDOR_PATTERNS ! i))) \<and>
   (i < k \<and> k < length VENDOR_PATTERNS \<and> re_search (fst (VENDOR_PATTERNS ! i)) d \<and>
      re_search (fst (VENDOR_PATTERNS ! k)) d
     \<longrightarrow> extract_vendor d \<noteq> Inr (snd (VENDOR_PATTERNS ! k)) \<and>
         (\<exists>m\<le>i. extract_vendor d = Inr (snd (VENDOR_PATTERNS ! m)) \<and>
                 re_search (fst (VENDOR_PATTERNS ! m)) d \<and>
                 (\<forall>j<m. \<not> re_search (fst (VENDOR_PATTERNS ! j)) d))) \<and>
   (re_search p d =
      (\<exists>pre post. d = pre @ post \<and>
         match_any p (if pre = [] then None else Some (last pre)) post)) \<and>
   (map lower d = map lower d' \<longrightarrow> re_search p d = re_search p d')"
proof -
  have first: "i < length VENDOR_PATTERNS \<and> re_search (fst (VENDOR_PATTERNS ! i)) d \<and>
      (\<forall>j<i. \<not> re_search (fst (VENDOR_PATTERNS ! j)) d)
     \<longrightarrow> extract_vendor d = Inr (snd (VENDOR_PATTERNS ! i))"
  proof
    assume "i < length VENDOR_PATTERNS \<and> re_search (fst (VENDOR_PATTERNS ! i)) d \<and>
      (\<forall>j<i. \<not> re_search (fst (VENDOR_PATTERNS ! j)) d)"
    then have "first_match VENDOR_PATTERNS d = Some (snd (VENDOR_PATTERNS ! i))"
      using first_match_index by blast
    then show "extract_vendor d = Inr (snd (VENDOR_PATTERNS ! i))"
      by (simp add: extract_vendor_def)
  qed
  have later: "i < k \<and> k < length VENDOR_PATTERNS \<and> re_search (fst (VENDOR_PATTERNS ! i)) d \<and>
      re_search (fst (VENDOR_PATTERNS ! k)) d
     \<longrightarrow> extract_vendor d \<noteq> Inr (snd (VENDOR_PATTERNS ! k)) \<and>
         (\<exists>m\<le>i. extract_vendor d = Inr (snd (VENDOR_PATTERNS ! m)) \<and>
                 re_search (fst (VENDOR_PATTERNS ! m)) d \<and>
                 (\<forall>j<m. \<not> re_search (fst (VENDOR_PATTERNS ! j)) d))"
  proof
    assume a: "i < k \<and> k < length VENDOR_PATTERNS \<and>
      re_search (fst (VENDOR_PATTERNS ! i)) d \<and> re_search (fst (VENDOR_PATTERNS ! k)) d"
    then have il: "i < length VENDOR_PATTERNS" by simp
    have "first_match VENDOR_PATTERNS d \<noteq> None"
      using first_match_None [of VENDOR_PATTERNS d i] a il by blast
    then obtain v where v: "first_match VENDOR_PATTERNS d = Some v" by blast
    from first_match_Some [OF v] obtain m where m: "m < length VENDOR_PATTERNS"
      "v = snd (VENDOR_PATTERNS ! m)" "re_search (fst (VENDOR_PATTERNS ! m)) d"
      "\<forall>j<m. \<not> re_search (fst (VENDOR_PATTERNS ! j)) d" by blast
    have mi: "m \<le> i"
    proof (rule ccontr)
      assume "\<not> m \<le> i"
      then have "i < m" by simp
      with m(4) a show False by blast
    qed
    have ev: "extract_vendor d = Inr (snd (VENDOR_PATTERNS ! m))"
      using v m(2) by (simp add: extract_vendor_def)
    have "m \<noteq> k" using mi a by simp
    have "(map snd VENDOR_PATTERNS ! m = map snd VENDOR_PATTERNS ! k) = (m = k)"
    proof (rule nth_eq_iff_index_eq)
      show "distinct (map snd VENDOR_PATTERNS)" by (rule labels_distinct)
      show "m < length (map snd VENDOR_PATTERNS)" using m(1) by simp
      show "k < length (map snd VENDOR_PATTERNS)" using a by simp
    qed
    with \<open>m \<noteq> k\<close> have ne: "snd (VENDOR_PATTERNS ! m) \<noteq> snd (VENDOR_PATTERNS ! k)"
      using m(1) a by simp
    show "extract_vendor d \<noteq> Inr (snd (VENDOR_PATTERNS ! k)) \<and>
         (\<exists>m\<le>i. extract_vendor d = Inr (snd (VENDOR_PATTERNS ! m)) \<and>
                 re_search (fst (VENDOR_PATTERNS ! m)) d \<and>
                 (\<forall>j<m. \<not> re_search (fst (VENDOR_PATTERNS ! j)) d))"
      using ev ne mi m(3) m(4) by auto
  qed
  have anywhere: "re_search p d =
      (\<exists>pre post. d = pre @ post \<and>
         match_any p (if pre = [] then None else Some (last pre)) post)"
    by (rule re_search_anywhere)
  have nocase: "map lower d = map lower d' \<longrightarrow> re_search p d = re_search p d'"
    using re_search_ignorecase by blast
  from first later anywhere nocase show ?thesis by blast
qed

theorem classifier_first_match_wins_witness:
  "extract_vendor ''Hampton Inn Hotel'' = Inr ''Hampton Inn'' \<and>
   extract_vendor ''Hampton Inn Hotel'' \<noteq> Inr ''Hotel'' \<and>
   re_search [wb @ lit ''Hotel'' @ wb] ''HAMPTON INN HOTEL''"
proof -
  note inst = classifier_first_match_wins [of 4 "''Hampton Inn Hotel''" 46
        "[wb @ lit ''Hotel'' @ wb]" "''HAMPTON INN HOTEL''"]
  have l4: "(4::nat) < length VENDOR_PATTERNS" and l46: "(46::nat) < length VENDOR_PATTERNS"
    by (simp_all add: length_VENDOR_PATTERNS)
  have h4: "re_search (fst (VENDOR_PATTERNS ! 4)) ''Hampton Inn Hotel''"
    by (simp add: hampton_rule regex_eval)
  have h46: "re_search (fst (VENDOR_PATTERNS ! 46)) ''Hampton Inn Hotel''"
    by (simp add: hotel_rule regex_eval)
  have lc: "map lower ''Hampton Inn Hotel'' = map lower ''HAMPTON INN HOTEL''"
    by (simp add: lower_table)
  have c1: "extract_vendor ''Hampton Inn Hotel'' = Inr (snd (VENDOR_PATTERNS ! 4))"
    using inst l4 h4 airline_rules_miss by blast
  have "(4::nat) < 46" by simp
  then have c2: "extract_vendor ''Hampton Inn Hotel'' \<noteq> Inr (snd (VENDOR_PATTERNS ! 46))"
    using inst l46 h4 h46 by blast
  have "re_search [wb @ lit ''Hotel'' @ wb] ''Hampton Inn Hotel'' =
        re_search [wb @ lit ''Hotel'' @ wb] ''HAMPTON INN HOTEL''"
    using inst lc by blast
  moreover have "re_search [wb @ lit ''Hotel'' @ wb] ''Hampton Inn Hotel''"
    using h46 by (simp only: hotel_rule fst_conv)
  ultimately have c3: "re_search [wb @ lit ''Hotel'' @ wb] ''HAMPTON INN HOTEL''"
    by blast
  from c1 c2 c3 show ?thesis
    by (simp only: hampton_rule hotel_rule snd_conv simp_thms)
qed

lemma split_acc_concat: "concat (split_acc cur s) = cur @ filter (\<lambda>c. \<not> is_space c) s"
  by (induction s arbitrary: cur) simp_all

lemma split_acc_tokens:
  "\<forall>c\<in>set cur. \<not> is_space c \<Longrightarrow> w \<in> set (split_acc cur s) \<Longrightarrow>
   w \<noteq> [] \<and> (\<forall>c\<in>set w. \<not> is_space c)"
proof (induction s arbitrary: cur)
  case Nil
  then show ?case by (auto split: if_splits)
next
  case (Cons x xs)
  show ?case
  proof (cases "is_space x")
    case True
    show ?thesis
    proof (cases "cur = []")
      case True
      with \<open>is_space x\<close> Cons.prems have "w \<in> set (split_acc [] xs)" by simp
      then show ?thesis using Cons.IH [of "[]"] by simp
    next
      case False
      with \<open>is_space x\<close> Cons.prems have "w = cur \<or> w \<in> set (split_acc [] xs)" by simp
      then show ?thesis
      proof
        assume "w = cur"
        with False Cons.prems(1) show ?thesis by simp
      next
        assume "w \<in> set (split_acc [] xs)"
        then show ?thesis using Cons.IH [of "[]"] by simp
      qed
    qed
  next
    case False
    with Cons.prems have w: "w \<in> set (split_acc (cur @ [x]) xs)" by simp
    have "\<forall>c\<in>set (cur @ [x]). \<not> is_space c" using False Cons.prems(1) by simp
    then show ?thesis using Cons.IH [of "cur @ [x]"] w by blast
  qed
qed

lemma split_tokens: "w \<in> set (split s) \<Longrightarrow> w \<noteq> [] \<and> (\<forall>c\<in>set w. \<not> is_space c)"
  unfolding split_def using split_acc_tokens [of "[]" w s] by simp

lemma split_concat: "concat (split s) = filter (\<lambda>c. \<not> is_space c) s"
  by (simp add: split_def split_acc_concat)

lemma index_0: "ws \<noteq> [] \<Longrightarrow> index ws 0 = Inr (hd ws)"
  by (cases ws) (simp_all add: index_def)

lemma drop_prefixed_eq:
  "ws \<noteq> [] \<Longrightarrow> drop_prefixed skips ws =
     Inr (if \<exists>p\<in>set skips. startswith (hd ws) p then tl ws else ws)"
  by (induction skips) (simp_all add: bind_exn_def index_0 drop_Suc)

lemma fallback_eq:
  "fallback d = Inr (case after_skip (split d) of
       [] \<Rightarrow> ''Unknown'' | [t] \<Rightarrow> t | t1 # t2 # _ \<Rightarrow> t1 @ '' '' @ t2)"
proof (cases "split d = []")
  case True
  then show ?thesis by (simp add: fallback_def after_skip_def)
next
  case False
  let ?r = "after_skip (split d)"
  have dp: "drop_prefixed SKIP_PREFIXES (split d) = Inr ?r"
    using False by (simp add: drop_prefixed_eq after_skip_def)
  have "fallback d =
      (if length ?r \<ge> 2 then Inr (join '' '' (take 2 ?r))
       else if ?r \<noteq> [] then index ?r 0 else Inr ''Unknown'')"
    using False dp by (simp add: fallback_def bind_exn_def Let_def)
  also have "\<dots> = Inr (case ?r of [] \<Rightarrow> ''Unknown'' | [t] \<Rightarrow> t | t1 # t2 # _ \<Rightarrow> t1 @ '' '' @ t2)"
  proof (cases ?r)
    case Nil
    then show ?thesis by simp
  next
    case (Cons t ts)
    then show ?thesis by (cases ts) (simp_all add: index_def)
  qed
  finally show ?thesis .
qed

lemma first_match_None_iff:
  "(first_match rs d = None) = (\<forall>r\<in>set rs. \<not> re_search (fst r) d)"
proof (induction rs)
  case Nil
  show ?case by simp
next
  case (Cons r rs)
  obtain p v where r: "r = (p, v)" by (cases r)
  show ?case
  proof (cases "re_search p d")
    case True
    with r show ?thesis by simp
  next
    case False
    with r Cons.IH show ?thesis by simp
  qed
qed

lemma first_match_Some_label: "first_match rs d = Some v \<Longrightarrow> v \<in> snd ` set rs"
  by (induction rs) (auto split: if_splits)

lemma labels_nonempty: "\<forall>r\<in>set VENDOR_PATTERNS. snd r \<noteq> []"
  by (simp add: VENDOR_PATTERNS_def)

text \<open>
  Claim C7. When no rule matches, the description is split on whitespace into tokens (the
  non-empty, whitespace-free runs of the description, in order); if the first token begins
  with one of the skip prefixes it is discarded; the result is the first two remaining tokens
  joined by one space, the single remaining token, or \<open>''Unknown''\<close> if none remains.
\<close>

theorem fallback_tokens:
  "(\<forall>r\<in>set VENDOR_PATTERNS. \<not> re_search (fst r) d) \<longrightarrow>
     extract_vendor d =
       Inr (let toks = split d;
                rest = (if toks \<noteq> [] \<and> (\<exists>p\<in>set SKIP_PREFIXES. startswith (hd toks) p)
                        then tl toks else toks)
            in case rest of [] \<Rightarrow> ''Unknown'' | [t] \<Rightarrow> t | t1 # t2 # _ \<Rightarrow> t1 @ '' '' @ t2) \<and>
     (\<forall>w\<in>set (split d). w \<noteq> [] \<and> (\<forall>c\<in>set w. \<not> is_space c)) \<and>
     concat (split d) = filter (\<lambda>c. \<not> is_space c) d"
proof
  assume "\<forall>r\<in>set VENDOR_PATTERNS. \<not> re_search (fst r) d"
  then have "first_match VENDOR_PATTERNS d = None" by (simp add: first_match_None_iff)
  then have "extract_vendor d = fallback d" by (simp add: extract_vendor_def)
  then have "extract_vendor d =
       Inr (let toks = split d;
                rest = (if toks \<noteq> [] \<and> (\<exists>p\<in>set SKIP_PREFIXES. startswith (hd toks) p)
                        then tl toks else toks)
            in case rest of [] \<Rightarrow> ''Unknown'' | [t] \<Rightarrow> t | t1 # t2 # _ \<Rightarrow> t1 @ '' '' @ t2)"
    by (simp add: fallback_eq after_skip_def Let_def)
  moreover have "\<forall>w\<in>set (split d). w \<noteq> [] \<and> (\<forall>c\<in>set w. \<not> is_space c)"
    using split_tokens by blast
  moreover have "concat (split d) = filter (\<lambda>c. \<not> is_space c) d"
    by (rule split_concat)
  ultimately show "extract_vendor d =
       Inr (let toks = split d;
                rest = (if toks \<noteq> [] \<and> (\<exists>p\<in>set SKIP_PREFIXES. startswith (hd toks) p)
                        then tl toks else toks)
            in case rest of [] \<Rightarrow> ''Unknown'' | [t] \<Rightarrow> t | t1 # t2 # _ \<Rightarrow> t1 @ '' '' @ t2) \<and>
     (\<forall>w\<in>set (split d). w \<noteq> [] \<and> (\<forall>c\<in>set w. \<not> is_space c)) \<and>
     concat (split d) = filter (\<lambda>c. \<not> is_space c) d"
    by blast
qed

lemma paypal_no_rule: "first_match VENDOR_PATTERNS ''PAYPAL *SOMECO monthly fee'' = None"
  by (simp add: VENDOR_PATTERNS_def regex_eval)

lemma empty_no_rule: "first_match VENDOR_PATTERNS [] = None"
  by (simp add: VENDOR_PATTERNS_def regex_eval)

lemma paypal_split: "split ''PAYPAL *SOMECO monthly fee'' = [''PAYPAL'', ''*SOMECO'', ''monthly'', ''fee'']"
  by (simp add: split_def is_space_table)

theorem fallback_tokens_witness:
  "extract_vendor ''PAYPAL *SOMECO monthly fee'' = Inr ''*SOMECO monthly'' \<and>
   extract_vendor '''' = Inr ''Unknown''"
proof -
  have n1: "\<forall>r\<in>set VENDOR_PATTERNS. \<not> re_search (fst r) ''PAYPAL *SOMECO monthly fee''"
    using paypal_no_rule by (simp only: first_match_None_iff)
  have n2: "\<forall>r\<in>set VENDOR_PATTERNS. \<not> re_search (fst r) []"
    using empty_no_rule by (simp only: first_match_None_iff)
  have "extract_vendor ''PAYPAL *SOMECO monthly fee'' = Inr ''*SOMECO monthly''"
    using fallback_tokens [of "''PAYPAL *SOMECO monthly fee''"] n1
    by (simp add: paypal_split SKIP_PREFIXES_def)
  moreover have "extract_vendor '''' = Inr ''Unknown''"
    using fallback_tokens [of "[]"] n2 by (simp add: split_def)
  ultimately show ?thesis by blast
qed

lemma extract_vendor_returns: "\<exists>v. extract_vendor d = Inr v \<and> v \<noteq> []"
proof (cases "first_match VENDOR_PATTERNS d")
  case (Some v)
  then have "v \<in> snd ` set VENDOR_PATTERNS" by (rule first_match_Some_label)
  with labels_nonempty have "v \<noteq> []" by auto
  with Some show ?thesis by (simp add: extract_vendor_def)
next
  case None
  let ?r = "after_skip (split d)"
  have sub: "set ?r \<subseteq> set (split d)"
    by (auto simp add: after_skip_def dest: list.set_sel(2))
  have ne: "\<forall>w\<in>set ?r. w \<noteq> []" using sub split_tokens by blast
  have "(case ?r of [] \<Rightarrow> ''Unknown'' | [t] \<Rightarrow> t | t1 # t2 # _ \<Rightarrow> t1 @ '' '' @ t2) \<noteq> []"
  proof (cases ?r)
    case Nil
    then show ?thesis by simp
  next
    case (Cons t ts)
    with ne show ?thesis by (cases ts) simp_all
  qed
  with None show ?thesis by (simp add: extract_vendor_def fallback_eq)
qed

text \<open>
  Claim C9. The classifier returns a non-empty string on every description, without raising:
  every label of the rule list is non-empty, and the fallback returns a token, two tokens
  joined by a space, or \<open>''Unknown''\<close>.
\<close>

theorem extract_vendor_nonempty:
  "(\<exists>v. extract_vendor d = Inr v \<and> v \<noteq> []) \<and> (\<forall>r\<in>set VENDOR_PATTERNS. snd r \<noteq> [])"
  using extract_vendor_returns [of d] labels_nonempty by blast

theorem extract_vendor_nonempty_witness:
  "(\<exists>v. extract_vendor ''RDU'' = Inr v \<and> v \<noteq> []) \<and> snd (VENDOR_PATTERNS ! 0) \<noteq> []"
proof -
  have "VENDOR_PATTERNS ! 0 \<in> set VENDOR_PATTERNS"
    by (rule nth_mem) (simp add: length_VENDOR_PATTERNS)
  then show ?thesis using extract_vendor_nonempty [of "''RDU''"] by blast
qed

section \<open>The extractor never raises\<close>

lemma extract_vendor_vendor_of: "extract_vendor d = Inr (vendor_of d)"
  using extract_vendor_returns [of d] by (auto simp add: vendor_of_def)

lemma inf_or_nan_error: "inf_or_nan s = Inl e \<Longrightarrow> e = ValueError"
  by (auto simp add: inf_or_nan_def Let_def split: prod.splits if_splits)

lemma py_float_error: "py_float s = Inl e \<Longrightarrow> e = ValueError"
  by (auto simp add: py_float_def Let_def
      split: option.splits prod.splits list.splits if_splits dest: inf_or_nan_error)

lemma parse_amount_amount_of: "parse_amount s = Inr (amount_of s)"
proof (cases "py_float (clean_amount s)")
  case (Inl e)
  then have "e = ValueError" by (rule py_float_error)
  with Inl show ?thesis by (simp add: amount_of_def parse_amount_def)
next
  case (Inr v)
  then show ?thesis by (simp add: amount_of_def parse_amount_def)
qed

lemma make_expense_eq: "5 \<le> length parts \<Longrightarrow> make_expense name parts = Inr (row_record name parts)"
  by (auto simp add: make_expense_def index_def bind_exn_def extract_vendor_vendor_of
      parse_amount_amount_of row_record_def)

lemma scan_line_eq: "scan_line name st raw = Inr (next_scan name st raw)"
  by (simp add: scan_line_def next_scan_def Let_def make_expense_eq bind_exn_def)

lemma scan_lines_eq: "scan_lines name st ls = Inr (foldl (next_scan name) st ls)"
  by (induction ls arbitrary: st) (simp_all add: scan_line_eq bind_exn_def)

lemma parse_markdown_file_eq:
  "parse_markdown_file name content =
     Inr (expenses (foldl (next_scan name) initial (split_on (CHR 0x0A) content)))"
  by (simp add: parse_markdown_file_def scan_lines_eq bind_exn_def)

section \<open>Evaluated examples\<close>

lemma amount_examples:
  "parse_amount ''$1,234.56'' = Inr (Finite 1234.56)"
  "parse_amount ''$0.00'' = Inr (Finite 0)"
  "parse_amount ''garbage'' = Inr (Finite 0)"
  "parse_amount ''$5.00'' = Inr (Finite 5)"
  "parse_amount ''---'' = Inr (Finite 0)"
  "parse_amount ''1.5e3'' = Inr (Finite 1500)"
  by (simp_all add: amount_eval)

lemma vendor_examples:
  "extract_vendor ''---'' = Inr ''---''"
  "extract_vendor ''Delta flight'' = Inr ''Delta Airlines''"
  "extract_vendor ''Uber'' = Inr ''Uber''"
  "extract_vendor ''Lyft'' = Inr ''Lyft''"
  by (simp_all add: vendor_eval)

lemma vendor_amount_text: "extract_vendor ''$5.00'' = Inr ''$5.00''"
  by (simp add: vendor_eval)

lemma amount_note: "parse_amount ''note'' = Inr (Finite 0)"
  by (simp add: amount_eval)

section \<open>Properties of the text primitives\<close>

lemma startswith_iff: "startswith s p = (\<exists>r. s = p @ r)"
  by (induction s p rule: startswith.induct) auto

lemma contains_iff: "contains s p = (\<exists>a r. s = a @ p @ r)"
proof (induction s)
  case Nil
  then show ?case by auto
next
  case (Cons x xs)
  show ?case
  proof
    assume "contains (x # xs) p"
    then consider "startswith (x # xs) p" | "contains xs p" by (auto split: if_splits)
    then show "\<exists>a r. x # xs = a @ p @ r"
    proof cases
      case 1
      then obtain r where "x # xs = [] @ p @ r" by (auto simp add: startswith_iff)
      then show ?thesis by blast
    next
      case 2
      with Cons obtain a r where "xs = a @ p @ r" by blast
      then have "x # xs = (x # a) @ p @ r" by simp
      then show ?thesis by blast
    qed
  next
    assume "\<exists>a r. x # xs = a @ p @ r"
    then obtain a r where ar: "x # xs = a @ p @ r" by blast
    show "contains (x # xs) p"
    proof (cases a)
      case Nil
      with ar have "startswith (x # xs) p" by (auto simp add: startswith_iff)
      then show ?thesis by simp
    next
      case (Cons y ys)
      with ar have "xs = ys @ p @ r" by simp
      then have "contains xs p" using Cons.IH by blast
      then show ?thesis by simp
    qed
  qed
qed

lemma strip_infix: "\<exists>a r. l = a @ strip l @ r"
proof -
  let ?d = "dropWhile is_space l"
  have 1: "l = takeWhile is_space l @ ?d" by simp
  have "rev (rev ?d) = rev (takeWhile is_space (rev ?d) @ dropWhile is_space (rev ?d))"
    by (simp only: takeWhile_dropWhile_id)
  then have "?d = rev (dropWhile is_space (rev ?d)) @ rev (takeWhile is_space (rev ?d))"
    by (simp only: rev_rev_ident rev_append)
  then have 2: "?d = strip l @ rev (takeWhile is_space (rev ?d))"
    by (simp only: strip_def)
  from 1 2 have "l = takeWhile is_space l @ strip l @ rev (takeWhile is_space (rev ?d))"
    by simp
  then show ?thesis by blast
qed

lemma contains_strip: "contains (strip l) p \<Longrightarrow> contains l p"
proof -
  assume "contains (strip l) p"
  then obtain a r where 1: "strip l = a @ p @ r" by (auto simp add: contains_iff)
  obtain a' r' where 2: "l = a' @ strip l @ r'" using strip_infix by blast
  from 1 2 have "l = (a' @ a) @ p @ (r @ r')" by simp
  then show "contains l p" unfolding contains_iff by blast
qed


lemma split_on_acc_append:
  "split_on_acc sep cur (a @ sep # c) = split_on_acc sep cur a @ split_on_acc sep [] c"
  by (induction a arbitrary: cur) simp_all

lemma split_on_append: "split_on sep (a @ sep # c) = split_on sep a @ split_on sep c"
  by (simp add: split_on_def split_on_acc_append)

lemma split_on_acc_nonempty: "split_on_acc sep cur s \<noteq> []"
  by (induction s arbitrary: cur) simp_all

lemma split_on_nonempty: "split_on sep s \<noteq> []"
  by (simp add: split_on_def split_on_acc_nonempty)

section \<open>Properties of the amount parser\<close>















section \<open>Properties of the table extractor\<close>

lemma next_scan_outside:
  "\<not> in_table st \<Longrightarrow> \<not> is_header (strip l) \<Longrightarrow> next_scan name st l = st"
  by (simp add: next_scan_def Let_def)

lemma foldl_next_scan_outside:
  "\<not> in_table st \<Longrightarrow> \<forall>l\<in>set ls. \<not> is_header (strip l) \<Longrightarrow>
   foldl (next_scan name) st ls = st"
  by (induction ls) (simp_all add: next_scan_outside)

text \<open>
  Claim C8. If no line of the text contains both header markers (\<open>''| Date |''\<close> and
  \<open>''GL Acct''\<close>), \<open>parse_markdown_file\<close> returns the empty list of records and raises nothing.
\<close>

theorem no_header_no_records:
  "(\<forall>l\<in>set (split_on (CHR 0x0A) content).
       \<not> (contains l ''| Date |'' \<and> contains l ''GL Acct''))
   \<longrightarrow> parse_markdown_file name content = Inr []"
proof
  assume a: "\<forall>l\<in>set (split_on (CHR 0x0A) content).
       \<not> (contains l ''| Date |'' \<and> contains l ''GL Acct'')"
  have "\<forall>l\<in>set (split_on (CHR 0x0A) content). \<not> is_header (strip l)"
  proof
    fix l assume "l \<in> set (split_on (CHR 0x0A) content)"
    with a have "\<not> (contains l ''| Date |'' \<and> contains l ''GL Acct'')" by blast
    then show "\<not> is_header (strip l)"
      unfolding is_header_def using contains_strip by blast
  qed
  moreover have "\<not> in_table initial" by (simp add: initial_def)
  ultimately have "foldl (next_scan name) initial (split_on (CHR 0x0A) content) = initial"
    by (rule foldl_next_scan_outside [rotated])
  then show "parse_markdown_file name content = Inr []"
    by (simp add: parse_markdown_file_eq initial_def)
qed

theorem no_header_no_records_witness:
  "parse_markdown_file ''r.md''
     (''# Notes'' @ [CHR 0x0A] @ ''| 01/02/2024 | 6200 | 10 | Lunch | $5.00 |'') = Inr []"
  using no_header_no_records
    [of "''# Notes'' @ [CHR 0x0A] @ ''| 01/02/2024 | 6200 | 10 | Lunch | $5.00 |''" "''r.md''"]
  by (simp add: split_on_def)

lemma next_scan_sim:
  "in_table st1 = in_table st2 \<Longrightarrow> expenses st1 = pre @ expenses st2 \<Longrightarrow>
   in_table (next_scan name st1 l) = in_table (next_scan name st2 l) \<and>
   expenses (next_scan name st1 l) = pre @ expenses (next_scan name st2 l)"
  by (auto simp add: next_scan_def Let_def)

lemma foldl_next_scan_sim:
  "in_table st1 = in_table st2 \<Longrightarrow> expenses st1 = pre @ expenses st2 \<Longrightarrow>
   expenses (foldl (next_scan name) st1 ls) = pre @ expenses (foldl (next_scan name) st2 ls)"
proof (induction ls arbitrary: st1 st2)
  case Nil
  then show ?case by simp
next
  case (Cons l ls)
  from next_scan_sim [OF Cons.prems, of name l]
  have "expenses (foldl (next_scan name) (next_scan name st1 l) ls) =
        pre @ expenses (foldl (next_scan name) (next_scan name st2 l) ls)"
    using Cons.IH by blast
  then show ?case by simp
qed

lemma next_scan_header:
  "is_header (strip l) \<Longrightarrow> next_scan name st l = st\<lparr>in_table := True, header_found := True\<rparr>"
  by (auto simp add: next_scan_def Let_def is_header_def)

text \<open>
  Claim C10. The header test comes before every test on \<open>in_table\<close>: in any state a header
  line sets \<open>in_table\<close>, so a closed table is reopened by a later header line. Hence a document
  made of a first part \<open>c1\<close> followed by lines \<open>c2\<close> that start with a header row yields the
  records of \<open>c1\<close> followed by the records of \<open>c2\<close>, in line order.
\<close>

theorem tables_concatenate:
  "(is_header (strip l) \<longrightarrow>
      scan_line name st l = Inr (st\<lparr>in_table := True, header_found := True\<rparr>)) \<and>
   (is_header (strip (hd (split_on (CHR 0x0A) c2))) \<longrightarrow>
      (\<exists>r1 r2. parse_markdown_file name c1 = Inr r1 \<and> parse_markdown_file name c2 = Inr r2 \<and>
         parse_markdown_file name (c1 @ CHR 0x0A # c2) = Inr (r1 @ r2)))"
proof
  show "is_header (strip l) \<longrightarrow>
      scan_line name st l = Inr (st\<lparr>in_table := True, header_found := True\<rparr>)"
    by (simp add: scan_line_eq next_scan_header)
next
  show "is_header (strip (hd (split_on (CHR 0x0A) c2))) \<longrightarrow>
      (\<exists>r1 r2. parse_markdown_file name c1 = Inr r1 \<and> parse_markdown_file name c2 = Inr r2 \<and>
         parse_markdown_file name (c1 @ CHR 0x0A # c2) = Inr (r1 @ r2))"
  proof
    assume hdr: "is_header (strip (hd (split_on (CHR 0x0A) c2)))"
    let ?f = "next_scan name"
    let ?L1 = "split_on (CHR 0x0A) c1"
    obtain h L2 where L2: "split_on (CHR 0x0A) c2 = h # L2"
      using split_on_nonempty [of "CHR 0x0A" c2] by (cases "split_on (CHR 0x0A) c2") auto
    with hdr have hh: "is_header (strip h)" by simp
    let ?s1 = "foldl ?f initial ?L1"
    let ?a = "?f ?s1 h"
    let ?b = "?f initial h"
    have "in_table ?a = in_table ?b" using hh by (simp add: next_scan_header)
    moreover have "expenses ?a = expenses ?s1 @ expenses ?b"
      using hh by (simp add: next_scan_header initial_def)
    ultimately have "expenses (foldl ?f ?a L2) = expenses ?s1 @ expenses (foldl ?f ?b L2)"
      by (rule foldl_next_scan_sim)
    then have "expenses (foldl ?f initial (?L1 @ h # L2)) =
        expenses ?s1 @ expenses (foldl ?f initial (h # L2))" by simp
    then have "parse_markdown_file name (c1 @ CHR 0x0A # c2) =
        Inr (expenses ?s1 @ expenses (foldl ?f initial (split_on (CHR 0x0A) c2)))"
      by (simp add: parse_markdown_file_eq split_on_append L2)
    then show "\<exists>r1 r2. parse_markdown_file name c1 = Inr r1 \<and>
         parse_markdown_file name c2 = Inr r2 \<and>
         parse_markdown_file name (c1 @ CHR 0x0A # c2) = Inr (r1 @ r2)"
      by (simp add: parse_markdown_file_eq)
  qed
qed

lemma first_table:
  "parse_markdown_file ''r.md''
     (''| Date | GL Acct/Job | Dept/Phase | Description | Amount |'' @ [CHR 0x0A] @
      ''|---|---|---|---|---|'' @ [CHR 0x0A] @
      ''| 01/02/2024 | 6200 | 10 | Delta flight | $1,234.56 |'' @ [CHR 0x0A] @
      ''| **Total** | | | | $1,234.56 |'') =
   Inr [\<lparr>date = ''01/02/2024'', description = ''Delta flight'', vendor = ''Delta Airlines'',
        amount = Finite 1234.56, gl_code = ''6200'', department = ''10'', source_file = ''r.md''\<rparr>]"
  by (simp add: parse_markdown_file_eq next_scan_def row_record_def vendor_of_def amount_of_def
      vendor_examples amount_examples text_eval initial_def)

lemma second_table:
  "parse_markdown_file ''r.md''
     (''| Date | GL Acct/Job | Dept/Phase | Description | Amount |'' @ [CHR 0x0A] @
      ''| 01/03/2024 | 6300 | 20 | Uber | $5.00 |'') =
   Inr [\<lparr>date = ''01/03/2024'', description = ''Uber'', vendor = ''Uber'',
        amount = Finite 5, gl_code = ''6300'', department = ''20'', source_file = ''r.md''\<rparr>]"
  by (simp add: parse_markdown_file_eq next_scan_def row_record_def vendor_of_def amount_of_def
      vendor_examples amount_examples text_eval initial_def)

theorem tables_concatenate_witness:
  "parse_markdown_file ''r.md''
     ((''| Date | GL Acct/Job | Dept/Phase | Description | Amount |'' @ [CHR 0x0A] @
       ''|---|---|---|---|---|'' @ [CHR 0x0A] @
       ''| 01/02/2024 | 6200 | 10 | Delta flight | $1,234.56 |'' @ [CHR 0x0A] @
       ''| **Total** | | | | $1,234.56 |'') @ CHR 0x0A #
      (''| Date | GL Acct/Job | Dept/Phase | Description | Amount |'' @ [CHR 0x0A] @
       ''| 01/03/2024 | 6300 | 20 | Uber | $5.00 |'')) =
   Inr [\<lparr>date = ''01/02/2024'', description = ''Delta flight'', vendor = ''Delta Airlines'',
        amount = Finite 1234.56, gl_code = ''6200'', department = ''10'', source_file = ''r.md''\<rparr>,
       \<lparr>date = ''01/03/2024'', description = ''Uber'', vendor = ''Uber'',
        amount = Finite 5, gl_code = ''6300'', department = ''20'', source_file = ''r.md''\<rparr>] \<and>
   scan_line ''r.md'' \<lparr>in_table = False, header_found = True, expenses = []\<rparr>
       ''| Date | GL Acct |'' =
     Inr \<lparr>in_table = True, header_found = True, expenses = []\<rparr>"
proof -
  let ?c1 = "''| Date | GL Acct/Job | Dept/Phase | Description | Amount |'' @ [CHR 0x0A] @
       ''|---|---|---|---|---|'' @ [CHR 0x0A] @
       ''| 01/02/2024 | 6200 | 10 | Delta flight | $1,234.56 |'' @ [CHR 0x0A] @
       ''| **Total** | | | | $1,234.56 |''"
  let ?c2 = "''| Date | GL Acct/Job | Dept/Phase | Description | Amount |'' @ [CHR 0x0A] @
       ''| 01/03/2024 | 6300 | 20 | Uber | $5.00 |''"
  note inst = tables_concatenate [of "''| Date | GL Acct |''" "''r.md''"
      "\<lparr>in_table = False, header_found = True, expenses = []\<rparr>" ?c2 ?c1]
  have h1: "is_header (strip ''| Date | GL Acct |'')"
    by (simp add: text_eval)
  have h2: "is_header (strip (hd (split_on (CHR 0x0A) ?c2)))"
    by (simp add: text_eval)
  from inst h2 obtain r1 r2 where r: "parse_markdown_file ''r.md'' ?c1 = Inr r1"
    "parse_markdown_file ''r.md'' ?c2 = Inr r2"
    "parse_markdown_file ''r.md'' (?c1 @ CHR 0x0A # ?c2) = Inr (r1 @ r2)" by blast
  from r(1) first_table have "r1 = [\<lparr>date = ''01/02/2024'', description = ''Delta flight'',
        vendor = ''Delta Airlines'', amount = Finite 1234.56, gl_code = ''6200'',
        department = ''10'', source_file = ''r.md''\<rparr>]" by simp
  moreover from r(2) second_table have "r2 = [\<lparr>date = ''01/03/2024'', description = ''Uber'',
        vendor = ''Uber'', amount = Finite 5, gl_code = ''6300'', department = ''20'',
        source_file = ''r.md''\<rparr>]" by simp
  ultimately have a: "parse_markdown_file ''r.md'' (?c1 @ CHR 0x0A # ?c2) =
     Inr [\<lparr>date = ''01/02/2024'', description = ''Delta flight'', vendor = ''Delta Airlines'',
        amount = Finite 1234.56, gl_code = ''6200'', department = ''10'', source_file = ''r.md''\<rparr>,
       \<lparr>date = ''01/03/2024'', description = ''Uber'', vendor = ''Uber'',
        amount = Finite 5, gl_code = ''6300'', department = ''20'', source_file = ''r.md''\<rparr>]"
    using r(3) by simp
  from inst h1 have b: "scan_line ''r.md'' \<lparr>in_table = False, header_found = True, expenses = []\<rparr>
       ''| Date | GL Acct |'' =
     Inr \<lparr>in_table = True, header_found = True, expenses = []\<rparr>" by simp
  from a b show ?thesis by blast
qed

text \<open>
  Claim C4, as amended. Inside the table, a non-empty line that is not a header row and does
  not begin with \<open>''|---''\<close>, and that contains the totals marker or does not begin with
  \<open>''|''\<close>, sets \<open>in_table\<close> to \<open>False\<close> and adds no record. A line that is empty once
  trimmed leaves the state unchanged, whatever the state is.
\<close>

theorem table_end_amended:
  "(in_table st \<and> strip l \<noteq> [] \<and> \<not> is_header (strip l) \<and> \<not> startswith (strip l) ''|---'' \<and>
      (contains (strip l) ''**Total'' \<or> \<not> startswith (strip l) ''|'')
     \<longrightarrow> scan_line name st l = Inr (st\<lparr>in_table := False\<rparr>)) \<and>
   (strip l = [] \<longrightarrow> scan_line name st l = Inr st)"
  by (simp add: scan_line_def Let_def)

theorem table_end_amended_witness:
  "scan_line ''r.md'' \<lparr>in_table = True, header_found = True, expenses = []\<rparr>
       ''| **Total** | | | | $1,234.56 |'' =
     Inr \<lparr>in_table = False, header_found = True, expenses = []\<rparr> \<and>
   scan_line ''r.md'' \<lparr>in_table = True, header_found = True, expenses = []\<rparr>
       ''Approved by: J. Doe'' =
     Inr \<lparr>in_table = False, header_found = True, expenses = []\<rparr> \<and>
   scan_line ''r.md'' \<lparr>in_table = True, header_found = True, expenses = []\<rparr> ''   '' =
     Inr \<lparr>in_table = True, header_found = True, expenses = []\<rparr>"
proof -
  let ?st = "\<lparr>in_table = True, header_found = True, expenses = []\<rparr>"
  have a: "scan_line ''r.md'' ?st ''| **Total** | | | | $1,234.56 |'' =
      Inr \<lparr>in_table = False, header_found = True, expenses = []\<rparr>"
    using table_end_amended [of ?st "''| **Total** | | | | $1,234.56 |''" "''r.md''"]
    by (simp add: text_eval)
  have b: "scan_line ''r.md'' ?st ''Approved by: J. Doe'' =
      Inr \<lparr>in_table = False, header_found = True, expenses = []\<rparr>"
    using table_end_amended [of ?st "''Approved by: J. Doe''" "''r.md''"]
    by (simp add: text_eval)
  have c: "scan_line ''r.md'' ?st ''   '' = Inr ?st"
    using table_end_amended [of ?st "''   ''" "''r.md''"]
    by (simp add: text_eval)
  from a b c show ?thesis by blast
qed

text \<open>
  Inside the table, a line with the totals marker that begins with \<open>''|---''\<close>, and a line
  that does not begin with \<open>''|''\<close> but holds both header markers, leave \<open>in_table\<close> set.
\<close>

theorem table_end_counterexample:
  "contains ''|--- **Total'' ''**Total'' \<and>
   scan_line ''r.md'' \<lparr>in_table = True, header_found = True, expenses = []\<rparr>
       ''|--- **Total'' =
     Inr \<lparr>in_table = True, header_found = True, expenses = []\<rparr> \<and>
   \<not> startswith ''Columns: | Date | GL Acct |'' ''|'' \<and>
   scan_line ''r.md'' \<lparr>in_table = True, header_found = True, expenses = []\<rparr>
       ''Columns: | Date | GL Acct |'' =
     Inr \<lparr>in_table = True, header_found = True, expenses = []\<rparr>"
  by (simp add: scan_line_eq next_scan_def text_eval)




text \<open>
  Claim C2, evaluated on rows with an empty third field. Splitting the first row on \<open>''|''\<close>
  gives seven fields, of which only the first and the last come from the delimiters at the
  line boundaries; the code drops the empty interior field as well, so four fields remain and
  no record is emitted. With one more field, a record is emitted whose department,
  description and amount are taken from the wrong columns.
\<close>

theorem interior_empty_field_dropped:
  "split_on (CHR ''|'') ''| 01/03/2024 | 6300 |  | Lyft | $5.00 |'' =
     [[], '' 01/03/2024 '', '' 6300 '', ''  '', '' Lyft '', '' $5.00 '', []] \<and>
   scan_line ''r.md'' \<lparr>in_table = True, header_found = True, expenses = []\<rparr>
       ''| 01/03/2024 | 6300 |  | Lyft | $5.00 |'' =
     Inr \<lparr>in_table = True, header_found = True, expenses = []\<rparr> \<and>
   scan_line ''r.md'' \<lparr>in_table = True, header_found = True, expenses = []\<rparr>
       ''| 01/03/2024 | 6300 |  | Lyft | $5.00 | note |'' =
     Inr \<lparr>in_table = True, header_found = True,
          expenses = [\<lparr>date = ''01/03/2024'', description = ''$5.00'', vendor = ''$5.00'',
            amount = Finite 0, gl_code = ''6300'', department = ''Lyft'',
            source_file = ''r.md''\<rparr>]\<rparr>"
  by (simp add: scan_line_eq next_scan_def row_record_def vendor_of_def amount_of_def
      vendor_examples vendor_amount_text amount_note amount_examples text_eval)

text \<open>
  Claim C3, evaluated on a row whose GL field is \<open>''62.00.''\<close>: the record's \<open>gl_code\<close> is
  \<open>''6200''\<close>, the interior period is removed along with the trailing one.
\<close>

theorem interior_periods_removed:
  "scan_line ''r.md'' \<lparr>in_table = True, header_found = True, expenses = []\<rparr>
       ''| 01/02/2024 | 62.00. | 10 | Uber | $5.00 |'' =
     Inr \<lparr>in_table = True, header_found = True,
          expenses = [\<lparr>date = ''01/02/2024'', description = ''Uber'', vendor = ''Uber'',
            amount = Finite 5, gl_code = ''6200'', department = ''10'',
            source_file = ''r.md''\<rparr>]\<rparr>"
  by (simp add: scan_line_eq next_scan_def row_record_def vendor_of_def amount_of_def
      vendor_examples amount_examples text_eval)

end
